theory Spec2Isabelle
  imports Main
begin

section \<open>Parsed JSON documents as JavaScript values\<close>

text \<open>
  The context documents are whatever \<^verbatim>\<open>JSON.parse\<close> returns. A value of type \<open>json\<close> is
  a JavaScript value other than \<^verbatim>\<open>undefined\<close>; the result of a property read, which may be
  \<^verbatim>\<open>undefined\<close>, has type \<open>json option\<close> with \<open>None\<close> for \<^verbatim>\<open>undefined\<close>.

  An object is the map of its own properties. A property holding \<^verbatim>\<open>undefined\<close> is not
  told apart from a missing one: a read gives \<^verbatim>\<open>undefined\<close> for both and
  \<^verbatim>\<open>JSON.stringify\<close> (behind the endpoints' \<^verbatim>\<open>json(...)\<close>) drops both. An array is the
  map of its own enumerable properties too (the index keys \<open>''0''\<close>, \<open>''1''\<close>, ... and
  whatever named property has been assigned to it); its \<^verbatim>\<open>length\<close> is not stored.
  Numbers are only tested for zero and copied by the code below, so they are integers here.
\<close>

datatype json =
    JNull
  | JBool bool
  | JNum int
  | JStr string
  | JArr "string \<Rightarrow> json option"
  | JObj "string \<Rightarrow> json option"

datatype js_error = TypeError

text \<open>JavaScript truthiness, as \<^verbatim>\<open>!x\<close>, \<^verbatim>\<open>x && y\<close> and \<^verbatim>\<open>x || y\<close> test it.\<close>

fun truthy :: "json \<Rightarrow> bool" where
  "truthy JNull = False"
| "truthy (JBool b) = b"
| "truthy (JNum n) = (n \<noteq> 0)"
| "truthy (JStr s) = (s \<noteq> [])"
| "truthy (JArr m) = True"
| "truthy (JObj m) = True"

fun truthyU :: "json option \<Rightarrow> bool" where
  "truthyU None = False"
| "truthyU (Some v) = truthy v"

text \<open>
  The own properties of a string are its index keys: the canonical decimal numerals
  below its length, each holding the one-character string at that position.
\<close>

definition is_digit :: "char \<Rightarrow> bool" where
  "is_digit c = (48 \<le> (of_char c :: nat) \<and> (of_char c :: nat) \<le> 57)"

fun index_of_key :: "string \<Rightarrow> nat option" where
  "index_of_key [] = None"
| "index_of_key (c # cs) =
     (if list_all is_digit (c # cs) \<and> (c \<noteq> CHR ''0'' \<or> cs = [])
      then Some (foldl (\<lambda>n d. 10 * n + (of_char d - 48)) 0 (c # cs))
      else None)"

definition strProps :: "string \<Rightarrow> string \<Rightarrow> json option" where
  "strProps s k =
     (case index_of_key k of
        None \<Rightarrow> None
      | Some i \<Rightarrow> if i < length s then Some (JStr [s ! i]) else None)"

text \<open>
  \<open>ownProps v\<close> is what the spread \<^verbatim>\<open>{...v}\<close> copies: the own enumerable properties of
  \<open>v\<close>, none for \<^verbatim>\<open>null\<close>, a boolean or a number.
\<close>

fun ownProps :: "json \<Rightarrow> string \<Rightarrow> json option" where
  "ownProps (JObj m) = m"
| "ownProps (JArr m) = m"
| "ownProps (JStr s) = strProps s"
| "ownProps JNull = Map.empty"
| "ownProps (JBool b) = Map.empty"
| "ownProps (JNum n) = Map.empty"

text \<open>
  \<open>getProp v k\<close> is the read \<^verbatim>\<open>v?.k\<close>, and \<^verbatim>\<open>v.k\<close> where \<open>v\<close> is not \<^verbatim>\<open>null\<close>. It is
  exact for every key that is not a built-in property of the value (\<^verbatim>\<open>length\<close>, the
  prototype's methods); the code below reads the fixed keys \<^verbatim>\<open>state\<close>,
  \<^verbatim>\<open>stage_outputs\<close>, \<^verbatim>\<open>full_context\<close>, the three stage names and the legacy field names,
  none of which is built in.
\<close>

definition getProp :: "json \<Rightarrow> string \<Rightarrow> json option" where
  "getProp v k = ownProps v k"

text \<open>
  \<open>setProp v k x\<close> is the assignment \<^verbatim>\<open>v.k = x\<close> for a key that is neither an index nor
  built in, returning the updated value. The route files are ES modules, hence strict
  code: creating a property on a primitive throws a \<^verbatim>\<open>TypeError\<close>.
\<close>

fun setProp :: "json \<Rightarrow> string \<Rightarrow> json \<Rightarrow> js_error + json" where
  "setProp (JObj m) k x = Inr (JObj (m(k \<mapsto> x)))"
| "setProp (JArr m) k x = Inr (JArr (m(k \<mapsto> x)))"
| "setProp JNull k x = Inl TypeError"
| "setProp (JBool b) k x = Inl TypeError"
| "setProp (JNum n) k x = Inl TypeError"
| "setProp (JStr s) k x = Inl TypeError"

section \<open>The context normalizer\<close>

text \<open>
  \<^verbatim>\<open>normalizeContext\<close> (the per-experiment endpoint). The three object literals it assigns:
  a field whose source is \<^verbatim>\<open>undefined\<close> is a missing field of the bundle.
\<close>

definition ideaBundle :: "json \<Rightarrow> json" where
  "ideaBundle state = JObj (Map.empty
     (''idea'' := getProp state ''idea'',
      ''research'' := getProp state ''research'',
      ''final_validation'' :=
         (if truthyU (getProp state ''research_final'') then getProp state ''research_final''
          else getProp state ''research''),
      ''legal_insights'' :=
         (case getProp state ''legal_insights'' of Some JNull \<Rightarrow> None | v \<Rightarrow> v),
      ''refinement_feedback'' := getProp state ''refinement_feedback''))"

definition prototypingBundle :: "json \<Rightarrow> json" where
  "prototypingBundle state = JObj (Map.empty
     (''architecture'' := getProp state ''architecture'',
      ''design'' := getProp state ''design'',
      ''final_designs'' := getProp state ''final_designs'',
      ''prototype'' := getProp state ''prototype''))"

definition pitchBundle :: "json \<Rightarrow> json" where
  "pitchBundle state = JObj (Map.empty
     (''marketing_strategies'' := getProp state ''marketing_strategies'',
      ''pitch_deck'' := getProp state ''pitch''))"

text \<open>
  One of the three guarded assignments
  \<^verbatim>\<open>if (!stageOutputs.stage && state.legacy) stageOutputs.stage = bundle\<close>.
\<close>

definition backfill :: "json \<Rightarrow> string \<Rightarrow> json option \<Rightarrow> json \<Rightarrow> js_error + json" where
  "backfill stageOutputs stage legacy bundle =
     (if \<not> truthyU (getProp stageOutputs stage) \<and> truthyU legacy
      then setProp stageOutputs stage bundle
      else Inr stageOutputs)"

text \<open>\<^verbatim>\<open>state.stage_outputs || {}\<close>\<close>

definition initialStageOutputs :: "json \<Rightarrow> json" where
  "initialStageOutputs state =
     (case getProp state ''stage_outputs'' of
        None \<Rightarrow> JObj Map.empty
      | Some so \<Rightarrow> if truthy so then so else JObj Map.empty)"

definition normalizeContext :: "json \<Rightarrow> js_error + json" where
  "normalizeContext context =
     (case getProp context ''state'' of
        None \<Rightarrow> Inr context
      | Some state \<Rightarrow>
          if \<not> truthy state then Inr context
          else
            (case backfill (initialStageOutputs state) ''idea_development''
                    (getProp state ''idea'') (ideaBundle state) of
               Inl e \<Rightarrow> Inl e
             | Inr so1 \<Rightarrow>
            (case backfill so1 ''prototyping''
                    (getProp state ''prototype'') (prototypingBundle state) of
               Inl e \<Rightarrow> Inl e
             | Inr so2 \<Rightarrow>
            (case backfill so2 ''pitch'' (getProp state ''pitch'') (pitchBundle state) of
               Inl e \<Rightarrow> Inl e
             | Inr so3 \<Rightarrow>
                 Inr (JObj ((ownProps context)
                   (''state'' \<mapsto> JObj ((ownProps state)(''stage_outputs'' \<mapsto> so3)))))))))"

text \<open>
  The read \<^verbatim>\<open>context?.state?.stage_outputs?.[stage]\<close>, as the pages that consume a
  context do it.
\<close>

definition stageOutput :: "json \<Rightarrow> string \<Rightarrow> json option" where
  "stageOutput context stage =
     (case getProp context ''state'' of
        None \<Rightarrow> None
      | Some state \<Rightarrow>
          (case getProp state ''stage_outputs'' of
             None \<Rightarrow> None
           | Some so \<Rightarrow> getProp so stage))"

section \<open>Strings\<close>

text \<open>\<^verbatim>\<open>s.startsWith(p)\<close>, \<^verbatim>\<open>s.endsWith(p)\<close> and \<^verbatim>\<open>s.includes(p)\<close>.\<close>

fun startsWith :: "string \<Rightarrow> string \<Rightarrow> bool" where
  "startsWith s [] = True"
| "startsWith [] (p # ps) = False"
| "startsWith (c # cs) (p # ps) = (c = p \<and> startsWith cs ps)"

definition endsWith :: "string \<Rightarrow> string \<Rightarrow> bool" where
  "endsWith s p = startsWith (rev s) (rev p)"

fun includesStr :: "string \<Rightarrow> string \<Rightarrow> bool" where
  "includesStr [] p = (p = [])"
| "includesStr (c # cs) p = (startsWith (c # cs) p \<or> includesStr cs p)"

text \<open>
  The lexical order of strings as a three-way comparison: character by character on
  the character codes, a proper prefix first. This is the lexical order of the
  specification and the byte order of \<^verbatim>\<open>strcmp\<close>; the listing endpoint compares ids with
  the host's \<^verbatim>\<open>localeCompare\<close>, a field of the host below.
\<close>

fun lexCompare :: "string \<Rightarrow> string \<Rightarrow> int" where
  "lexCompare [] [] = 0"
| "lexCompare [] (y # ys) = - 1"
| "lexCompare (x # xs) [] = 1"
| "lexCompare (x # xs) (y # ys) =
     (if (of_char x :: nat) < of_char y then - 1
      else if (of_char y :: nat) < of_char x then 1
      else lexCompare xs ys)"

section \<open>Sorting with a comparator\<close>

text \<open>
  \<^verbatim>\<open>Array.prototype.sort\<close> with a comparator is a stable sort: for a consistent comparator
  every such sort returns the same array, here by insertion from the right.
\<close>

fun insertBy :: "('a \<Rightarrow> 'a \<Rightarrow> int) \<Rightarrow> 'a \<Rightarrow> 'a list \<Rightarrow> 'a list" where
  "insertBy cmp x [] = [x]"
| "insertBy cmp x (y # ys) = (if cmp x y \<le> 0 then x # y # ys else y # insertBy cmp x ys)"

definition sortBy :: "('a \<Rightarrow> 'a \<Rightarrow> int) \<Rightarrow> 'a list \<Rightarrow> 'a list" where
  "sortBy cmp xs = foldr (insertBy cmp) xs []"

text \<open>
  What ECMAScript requires of a comparator, and of \<^verbatim>\<open>localeCompare\<close>, for a sort to have a
  defined result, stated on the values that are compared: \<open>a\<close> before \<open>b\<close> exactly when
  \<open>b\<close> after \<open>a\<close>, and transitivity.
\<close>

definition consistentOn :: "'a set \<Rightarrow> ('a \<Rightarrow> 'a \<Rightarrow> int) \<Rightarrow> bool" where
  "consistentOn S cmp =
     ((\<forall>a\<in>S. \<forall>b\<in>S. (cmp a b < 0) = (0 < cmp b a)) \<and>
      (\<forall>a\<in>S. \<forall>b\<in>S. \<forall>c\<in>S. cmp a b \<le> 0 \<and> cmp b c \<le> 0 \<longrightarrow> cmp a c \<le> 0))"

section \<open>The host: file system, JSON parser and collation\<close>

text \<open>
  The endpoints reach the file system through \<^verbatim>\<open>fs/promises\<close>. A path is the list of
  segments joined onto the root directory (\<^verbatim>\<open>EXPERIMENTS_DIR\<close>): \<open>[id]\<close> is
  \<^verbatim>\<open>join(EXPERIMENTS_DIR, id)\<close>. Each call either fails with an error code or returns
  its value. \<open>dirents\<close> holds the entries of a directory, each a name and whether it is a
  directory, in the order they are stored. \<^verbatim>\<open>JSON.parse\<close> returns \<open>None\<close> where it throws
  a \<^verbatim>\<open>SyntaxError\<close>. \<^verbatim>\<open>String.prototype.localeCompare\<close> is the host's collation.
\<close>

datatype errno = ENOENT | ENOTDIR | EACCES | EIO

type_synonym path = "string list"

record host =
  dirents :: "path \<Rightarrow> errno + (string \<times> bool) list"
  stat_mtime :: "path \<Rightarrow> errno + string"
  readFile :: "path \<Rightarrow> errno + string"
  access :: "path \<Rightarrow> errno + unit"
  JSON_parse :: "string \<Rightarrow> json option"
  localeCompare :: "string \<Rightarrow> string \<Rightarrow> int"

text \<open>
  \<^verbatim>\<open>readdir(path, { withFileTypes: true })\<close> and \<^verbatim>\<open>readdir(path)\<close>. The runtime hands the
  entries over sorted by name in byte order (it scans the directory and sorts the names
  with \<^verbatim>\<open>strcmp\<close>), whatever order they are stored in.
\<close>

definition readdirTypes :: "host \<Rightarrow> path \<Rightarrow> errno + (string \<times> bool) list" where
  "readdirTypes h p =
     (case dirents h p of
        Inl e \<Rightarrow> Inl e
      | Inr entries \<Rightarrow> Inr (sortBy (\<lambda>a b. lexCompare (fst a) (fst b)) entries))"

definition readdir :: "host \<Rightarrow> path \<Rightarrow> errno + string list" where
  "readdir h p =
     (case readdirTypes h p of
        Inl e \<Rightarrow> Inl e
      | Inr entries \<Rightarrow> Inr (map fst entries))"

text \<open>
  What can be thrown inside an endpoint, and the file-system calls an endpoint has
  issued so far, in order. A computation takes the calls issued before it and returns
  its outcome with the calls issued after it.
\<close>

datatype exn = IOError errno | SyntaxError | JsError js_error

datatype fsop =
    ReaddirTypes path
  | Readdir path
  | Stat path
  | ReadFile path
  | Access path

type_synonym 'a io = "fsop list \<Rightarrow> (exn + 'a) \<times> fsop list"

definition returnIO :: "'a \<Rightarrow> 'a io" where
  "returnIO x = (\<lambda>log. (Inr x, log))"

definition throwIO :: "exn \<Rightarrow> 'a io" where
  "throwIO e = (\<lambda>log. (Inl e, log))"

definition bindIO :: "'a io \<Rightarrow> ('a \<Rightarrow> 'b io) \<Rightarrow> 'b io" where
  "bindIO m f = (\<lambda>log. case m log of (Inl e, log') \<Rightarrow> (Inl e, log') | (Inr x, log') \<Rightarrow> f x log')"

definition fsCall :: "fsop \<Rightarrow> errno + 'a \<Rightarrow> 'a io" where
  "fsCall op r = (\<lambda>log. (case r of Inl e \<Rightarrow> Inl (IOError e) | Inr x \<Rightarrow> Inr x, log @ [op]))"

definition liftJs :: "js_error + 'a \<Rightarrow> 'a io" where
  "liftJs r = (case r of Inl e \<Rightarrow> throwIO (JsError e) | Inr x \<Rightarrow> returnIO x)"

text \<open>\<^verbatim>\<open>JSON.parse(await readFile(path, 'utf-8'))\<close>\<close>

definition readJson :: "host \<Rightarrow> path \<Rightarrow> json io" where
  "readJson h p =
     bindIO (fsCall (ReadFile p) (readFile h p)) (\<lambda>data.
       case JSON_parse h data of None \<Rightarrow> throwIO SyntaxError | Some v \<Rightarrow> returnIO v)"

text \<open>
  An endpoint's answer: \<open>Ok body\<close> is \<^verbatim>\<open>json(body)\<close> (status 200), or for the image
  endpoint the \<^verbatim>\<open>Response\<close> it builds; \<open>Error status message\<close> is
  \<^verbatim>\<open>json({ error: message }, { status })\<close>, or the \<^verbatim>\<open>error(status, message)\<close> thrown to the
  framework. Status 400 is BadRequest and 404 is NotFound. \<open>tryCatch body handler\<close> runs
  an endpoint's \<^verbatim>\<open>try\<close> block from no calls issued.
\<close>

datatype 'a http = Ok 'a | Error nat string

definition tryCatch :: "'a http io \<Rightarrow> (exn \<Rightarrow> 'a http) \<Rightarrow> 'a http \<times> fsop list" where
  "tryCatch body handler =
     (case body [] of (Inl e, log) \<Rightarrow> (handler e, log) | (Inr r, log) \<Rightarrow> (r, log))"

section \<open>The listing endpoint\<close>

datatype kind = Full | StageRun

record experiment_summary =
  exp_id :: string
  exp_type :: kind
  hasStatistics :: bool
  hasCompleteContext :: bool
  hasResults :: bool
  contextFiles :: "string list"
  timestamp :: string

text \<open>The loop over the root directory's entries (\<^verbatim>\<open>GET\<close> of \<^verbatim>\<open>/api/experiments\<close>).\<close>

fun scanEntries :: "host \<Rightarrow> (string \<times> bool) list \<Rightarrow> experiment_summary list io" where
  "scanEntries h [] = returnIO []"
| "scanEntries h ((name, isDirectory) # entries) =
     (if isDirectory \<and> \<not> startsWith name ''.'' then
        bindIO (fsCall (Readdir [name]) (readdir h [name])) (\<lambda>files.
        bindIO (fsCall (Stat [name]) (stat_mtime h [name])) (\<lambda>mtime.
        bindIO (scanEntries h entries) (\<lambda>experiments.
          returnIO
            (\<lparr>exp_id = name,
              exp_type = (if startsWith name ''stage_run_'' then StageRun else Full),
              hasStatistics = (''statistics.json'' \<in> set files),
              hasCompleteContext = (''context_final.json'' \<in> set files),
              hasResults = (''results.json'' \<in> set files),
              contextFiles = filter (\<lambda>f. endsWith f ''.json'') files,
              timestamp = mtime\<rparr> # experiments))))
      else scanEntries h entries)"

definition listExperiments :: "host \<Rightarrow> experiment_summary list http \<times> fsop list" where
  "listExperiments h =
     tryCatch
       (bindIO (fsCall (ReaddirTypes []) (readdirTypes h [])) (\<lambda>entries.
        bindIO (scanEntries h entries) (\<lambda>experiments.
          returnIO (Ok (sortBy (\<lambda>a b. localeCompare h (exp_id b) (exp_id a)) experiments)))))
       (\<lambda>e. Error 500 ''Failed to load experiments'')"

section \<open>The per-experiment endpoint\<close>

record experiment_detail = experiment_summary +
  subfolders :: "string list"

text \<open>
  The three shapes of the answer: \<^verbatim>\<open>{ ...experiment, context }\<close>,
  \<^verbatim>\<open>{ ...experiment, results }\<close> and \<^verbatim>\<open>experiment\<close> alone.
\<close>

datatype experiment_body =
    WithContext experiment_detail json
  | WithResults experiment_detail json
  | Summary experiment_detail

text \<open>
  \<^verbatim>\<open>if (results.full_context) results.full_context = normalizeContext(results.full_context)\<close>;
  reading a property of \<^verbatim>\<open>null\<close> throws.
\<close>

definition normalizeResults :: "json \<Rightarrow> js_error + json" where
  "normalizeResults results =
     (case results of
        JNull \<Rightarrow> Inl TypeError
      | _ \<Rightarrow>
          (case getProp results ''full_context'' of
             None \<Rightarrow> Inr results
           | Some full_context \<Rightarrow>
               if truthy full_context then
                 (case normalizeContext full_context of
                    Inl e \<Rightarrow> Inl e
                  | Inr context \<Rightarrow> setProp results ''full_context'' context)
               else Inr results))"

definition getExperiment :: "host \<Rightarrow> string \<Rightarrow> experiment_body http \<times> fsop list" where
  "getExperiment h eid =
     tryCatch
       (bindIO (fsCall (Readdir [eid]) (readdir h [eid])) (\<lambda>files.
        bindIO (fsCall (Stat [eid]) (stat_mtime h [eid])) (\<lambda>mtime.
          let contextFiles = filter (\<lambda>f. endsWith f ''.json'') files;
              hasFinalContext = (''context_final.json'' \<in> set files);
              hasResults = (''results.json'' \<in> set files);
              experiment =
                \<lparr>exp_id = eid,
                 exp_type = (if startsWith eid ''experiment_'' then Full else StageRun),
                 hasStatistics = (''statistics.json'' \<in> set files),
                 hasCompleteContext = hasFinalContext,
                 hasResults = hasResults,
                 contextFiles = contextFiles,
                 timestamp = mtime,
                 subfolders = filter (\<lambda>f. \<not> includesStr f ''.'') files\<rparr>
          in
            if hasFinalContext then
              bindIO (readJson h [eid, ''context_final.json'']) (\<lambda>doc.
              bindIO (liftJs (normalizeContext doc)) (\<lambda>context.
                returnIO (Ok (WithContext experiment context))))
            else if hasResults then
              bindIO (readJson h [eid, ''results.json'']) (\<lambda>doc.
              bindIO (liftJs (normalizeResults doc)) (\<lambda>results.
                returnIO (Ok (WithResults experiment results))))
            else
              (case find (\<lambda>f. startsWith f ''context_'') contextFiles of
                 Some firstContext \<Rightarrow>
                   bindIO (readJson h [eid, firstContext]) (\<lambda>doc.
                   bindIO (liftJs (normalizeContext doc)) (\<lambda>context.
                     returnIO (Ok (WithContext experiment context))))
               | None \<Rightarrow> returnIO (Ok (Summary experiment))))))
       (\<lambda>e. Error 500 ''Failed to load experiment'')"

section \<open>The design image endpoint\<close>

text \<open>
  \<^verbatim>\<open>filename.toLowerCase().split('.').pop()\<close>: the text after the last dot, in lower
  case (the comparisons below are with ASCII words, so only \<^verbatim>\<open>A\<close> to \<^verbatim>\<open>Z\<close> matter).
\<close>

definition toLowerCase :: "string \<Rightarrow> string" where
  "toLowerCase s =
     map (\<lambda>c. if 65 \<le> (of_char c :: nat) \<and> (of_char c :: nat) \<le> 90
               then char_of ((of_char c :: nat) + 32) else c) s"

definition extension :: "string \<Rightarrow> string" where
  "extension filename = rev (takeWhile (\<lambda>c. c \<noteq> CHR ''.'') (rev (toLowerCase filename)))"

definition contentType :: "string \<Rightarrow> string" where
  "contentType filename =
     (let ext = extension filename in
      if ext = ''jpg'' \<or> ext = ''jpeg'' then ''image/jpeg''
      else if ext = ''gif'' then ''image/gif''
      else if ext = ''webp'' then ''image/webp''
      else ''image/png'')"

definition getDesignAsset :: "host \<Rightarrow> string \<Rightarrow> string \<Rightarrow> (string \<times> string) http \<times> fsop list" where
  "getDesignAsset h eid filename =
     (if eid = [] \<or> filename = [] then (Error 400 ''Missing experiment ID or filename'', [])
      else if includesStr eid ''..'' \<or> includesStr filename ''..'' then (Error 400 ''Invalid path'', [])
      else
        tryCatch
          (bindIO (fsCall (Access [eid, ''designs'', filename])
                     (access h [eid, ''designs'', filename])) (\<lambda>u.
           bindIO (fsCall (ReadFile [eid, ''designs'', filename])
                     (readFile h [eid, ''designs'', filename])) (\<lambda>imageBuffer.
             returnIO (Ok (imageBuffer, contentType filename)))))
          (\<lambda>e. Error 404 ''Image not found''))"

section \<open>Objects and arrays\<close>

text \<open>
  \<open>isObject v\<close>: \<open>v\<close> is an object or an array, the values on which a property can be
  created.
\<close>

fun isObject :: "json \<Rightarrow> bool" where
  "isObject (JObj m) = True" | "isObject (JArr m) = True" | "isObject v = False"

section \<open>Example documents and an example host\<close>

text \<open>
  A legacy-shaped context (flat fields, no \<^verbatim>\<open>stage_outputs\<close>) and a structured one whose
  \<^verbatim>\<open>stage_outputs.idea_development\<close> differs from what its legacy field \<^verbatim>\<open>idea\<close> would give.
\<close>

definition exampleIdea :: json where
  "exampleIdea = JObj [''problem'' \<mapsto> JStr ''slow reviews'', ''solution'' \<mapsto> JStr ''a bot'']"

definition exampleValidation :: json where
  "exampleValidation = JObj [''recommendation'' \<mapsto> JStr ''GO'']"

definition legacyState :: json where
  "legacyState = JObj [''idea'' \<mapsto> exampleIdea, ''research_final'' \<mapsto> exampleValidation,
     ''iterations'' \<mapsto> JNum 2]"

definition legacyContext :: json where
  "legacyContext = JObj [''state'' \<mapsto> legacyState, ''history_length'' \<mapsto> JNum 3]"

definition exampleResearch :: json where
  "exampleResearch = JObj [''recommendation'' \<mapsto> JStr ''PIVOT'']"

definition researchedState :: json where
  "researchedState = JObj [''idea'' \<mapsto> exampleIdea, ''research'' \<mapsto> exampleResearch,
     ''research_final'' \<mapsto> exampleValidation]"

definition researchedContext :: json where
  "researchedContext = JObj [''state'' \<mapsto> researchedState]"

definition structuredEntry :: json where
  "structuredEntry = JObj [''idea'' \<mapsto> JObj [''problem'' \<mapsto> JStr ''other''], ''converged'' \<mapsto> JBool True]"

definition structuredState :: json where
  "structuredState = JObj [''idea'' \<mapsto> exampleIdea,
     ''stage_outputs'' \<mapsto> JObj [''idea_development'' \<mapsto> structuredEntry]]"

definition structuredContext :: json where
  "structuredContext = JObj [''state'' \<mapsto> structuredState]"

text \<open>
  A model of the default locale collation on ASCII names, for the example hosts: names
  are compared character by character without regard to case, punctuation before digits
  before letters; names that are equal up to case are ordered by the first character
  that differs, lower case first. So \<^verbatim>\<open>demo\<close> comes before \<^verbatim>\<open>MyExperiment\<close>, which
  comes first by character codes.
\<close>

definition collationKey :: "char \<Rightarrow> nat" where
  "collationKey c =
     (if 65 \<le> (of_char c :: nat) \<and> (of_char c :: nat) \<le> 90 then 512 + of_char c + 32
      else if 97 \<le> (of_char c :: nat) \<and> (of_char c :: nat) \<le> 122 then 512 + of_char c
      else if is_digit c then 256 + of_char c
      else of_char c)"

fun primaryCompare :: "string \<Rightarrow> string \<Rightarrow> int" where
  "primaryCompare [] [] = 0"
| "primaryCompare [] (y # ys) = - 1"
| "primaryCompare (x # xs) [] = 1"
| "primaryCompare (x # xs) (y # ys) =
     (if collationKey x < collationKey y then - 1
      else if collationKey y < collationKey x then 1
      else primaryCompare xs ys)"

fun caseCompare :: "string \<Rightarrow> string \<Rightarrow> int" where
  "caseCompare (x # xs) (y # ys) =
     (if x = y then caseCompare xs ys
      else if 97 \<le> (of_char x :: nat) \<and> (of_char x :: nat) \<le> 122 then - 1
      else 1)"
| "caseCompare xs ys = 0"

definition collate :: "string \<Rightarrow> string \<Rightarrow> int" where
  "collate a b = (if primaryCompare a b \<noteq> 0 then primaryCompare a b else caseCompare a b)"

text \<open>
  An experiments directory with a finished run, a run that has two stage snapshots and no
  final context, a directory named outside both naming conventions, a hidden directory
  and a plain file. The directory \<^verbatim>\<open>experiment_20231231_000000\<close> does not exist.
\<close>

definition exampleFinalDoc :: json where
  "exampleFinalDoc = JObj [''history_length'' \<mapsto> JNum 1]"

definition examplePitchDoc :: json where
  "examplePitchDoc = JObj [''history_length'' \<mapsto> JNum 2]"

definition exampleIdeaDoc :: json where
  "exampleIdeaDoc = JObj [''history_length'' \<mapsto> JNum 3]"

definition exampleParse :: "string \<Rightarrow> json option" where
  \<open>exampleParse text =
     (if text = ''{"history_length":1}'' then Some exampleFinalDoc
      else if text = ''{"history_length":2}'' then Some examplePitchDoc
      else if text = ''{"history_length":3}'' then Some exampleIdeaDoc
      else if text = ''{"stage":"pitch"}'' then Some (JObj [''stage'' \<mapsto> JStr ''pitch''])
      else None)\<close>

definition exampleHost :: host where
  \<open>exampleHost =
     \<lparr>dirents = (\<lambda>p.
        if p = [] then
          Inr [(''.cache'', True), (''README.md'', False), (''demo'', True),
               (''experiment_20240101_000000'', True), (''experiment_20240102_000000'', True)]
        else if p = [''experiment_20240101_000000''] then
          Inr [(''context_final.json'', False), (''designs'', True), (''results.json'', False),
               (''statistics.json'', False)]
        else if p = [''experiment_20240102_000000''] then
          Inr [(''context_idea_development.json'', False), (''context_pitch.json'', False)]
        else if p = [''demo''] then Inr []
        else Inl ENOENT),
      stat_mtime = (\<lambda>p.
        if p = [''experiment_20240101_000000''] \<or> p = [''experiment_20240102_000000''] \<or> p = [''demo'']
        then Inr ''2024-01-03T00:00:00.000Z'' else Inl ENOENT),
      readFile = (\<lambda>p.
        if p = [''experiment_20240101_000000'', ''context_final.json''] then Inr ''{"history_length":1}''
        else if p = [''experiment_20240101_000000'', ''results.json''] then Inr ''{"stage":"pitch"}''
        else if p = [''experiment_20240102_000000'', ''context_pitch.json''] then Inr ''{"history_length":2}''
        else if p = [''experiment_20240102_000000'', ''context_idea_development.json'']
          then Inr ''{"history_length":3}''
        else Inl ENOENT),
      access = (\<lambda>p. Inl ENOENT),
      JSON_parse = exampleParse,
      localeCompare = collate\<rparr>\<close>

text \<open>An experiments directory with two runs named by hand, one with capitals.\<close>

definition mixedCaseHost :: host where
  "mixedCaseHost =
     \<lparr>dirents = (\<lambda>p.
        if p = [] then Inr [(''MyExperiment'', True), (''demo'', True)]
        else if p = [''MyExperiment''] \<or> p = [''demo''] then Inr []
        else Inl ENOENT),
      stat_mtime = (\<lambda>p.
        if p = [''MyExperiment''] \<or> p = [''demo''] then Inr ''2024-01-03T00:00:00.000Z''
        else Inl ENOENT),
      readFile = (\<lambda>p. Inl ENOENT),
      access = (\<lambda>p. Inl ENOENT),
      JSON_parse = exampleParse,
      localeCompare = collate\<rparr>"

section \<open>Properties of the normalizer\<close>

lemmas example_defs = legacyContext_def legacyState_def exampleIdea_def exampleValidation_def
  structuredContext_def structuredState_def structuredEntry_def
  researchedContext_def researchedState_def exampleResearch_def

lemma setProp_Inr:
  assumes "setProp so k x = Inr so'"
  shows "getProp so' k' = (if k' = k then Some x else getProp so k') \<and> isObject so'"
  using assms by (cases so) (auto simp: getProp_def)

lemma setProp_isObject: "isObject so \<Longrightarrow> \<exists>so'. setProp so k x = Inr so'"
  by (cases so) auto

lemma isObject_truthy: "isObject v \<Longrightarrow> truthy v"
  by (cases v) auto

lemma backfill_Inr:
  assumes "backfill so k legacy b = Inr so'"
  shows "getProp so' k' = (if k' = k \<and> \<not> truthyU (getProp so k) \<and> truthyU legacy then Some b else getProp so k')"
    and "truthy so \<Longrightarrow> truthy so'" and "isObject so \<Longrightarrow> isObject so'"
  using assms by (auto simp: backfill_def isObject_truthy dest: setProp_Inr split: if_splits)

lemma backfill_isObject: "isObject so \<Longrightarrow> \<exists>so'. backfill so k legacy b = Inr so'"
  by (simp add: backfill_def setProp_isObject)

lemma truthy_initialStageOutputs: "truthy (initialStageOutputs state)"
  by (simp add: initialStageOutputs_def split: option.splits)

lemma truthy_bundles: "truthy (ideaBundle s)" "truthy (prototypingBundle s)" "truthy (pitchBundle s)"
  by (simp_all add: ideaBundle_def prototypingBundle_def pitchBundle_def)

lemma getProp_initialStageOutputs:
  "truthyU (getProp (initialStageOutputs state) k) = truthyU (case getProp state ''stage_outputs'' of None \<Rightarrow> None | Some so \<Rightarrow> getProp so k)"
  apply (simp add: initialStageOutputs_def getProp_def split: option.splits)
  apply (intro allI impI)
  subgoal for so by (cases so) (auto simp: strProps_def split: option.splits)
  done

lemma normalizeContext_no_state:
  "\<not> truthyU (getProp context ''state'') \<Longrightarrow> normalizeContext context = Inr context"
  by (auto simp: normalizeContext_def split: option.splits)

lemma normalizeContext_Inr:
  assumes st: "getProp context ''state'' = Some state" "truthy state"
      and res: "normalizeContext context = Inr result"
  obtains so where
    "result = JObj ((ownProps context)(''state'' \<mapsto> JObj ((ownProps state)(''stage_outputs'' \<mapsto> so))))"
    "truthy so"
    "getProp so ''idea_development'' =
       (if \<not> truthyU (getProp (initialStageOutputs state) ''idea_development'') \<and> truthyU (getProp state ''idea'')
        then Some (ideaBundle state) else getProp (initialStageOutputs state) ''idea_development'')"
    "getProp so ''prototyping'' =
       (if \<not> truthyU (getProp (initialStageOutputs state) ''prototyping'') \<and> truthyU (getProp state ''prototype'')
        then Some (prototypingBundle state) else getProp (initialStageOutputs state) ''prototyping'')"
    "getProp so ''pitch'' =
       (if \<not> truthyU (getProp (initialStageOutputs state) ''pitch'') \<and> truthyU (getProp state ''pitch'')
        then Some (pitchBundle state) else getProp (initialStageOutputs state) ''pitch'')"
proof -
  from res st obtain so1 so2 so3 where
    b1: "backfill (initialStageOutputs state) ''idea_development'' (getProp state ''idea'') (ideaBundle state) = Inr so1"
    and b2: "backfill so1 ''prototyping'' (getProp state ''prototype'') (prototypingBundle state) = Inr so2"
    and b3: "backfill so2 ''pitch'' (getProp state ''pitch'') (pitchBundle state) = Inr so3"
    and r: "result = JObj ((ownProps context)(''state'' \<mapsto> JObj ((ownProps state)(''stage_outputs'' \<mapsto> so3))))"
    by (auto simp: normalizeContext_def split: sum.splits)
  have t: "truthy so3"
    using backfill_Inr(2)[OF b3] backfill_Inr(2)[OF b2] backfill_Inr(2)[OF b1] truthy_initialStageOutputs by blast
  have g1: "getProp so3 ''idea_development'' = (if \<not> truthyU (getProp (initialStageOutputs state) ''idea_development'') \<and> truthyU (getProp state ''idea'')
        then Some (ideaBundle state) else getProp (initialStageOutputs state) ''idea_development'')"
    by (simp add: backfill_Inr(1)[OF b3] backfill_Inr(1)[OF b2] backfill_Inr(1)[OF b1])
  have g2: "getProp so3 ''prototyping'' = (if \<not> truthyU (getProp (initialStageOutputs state) ''prototyping'') \<and> truthyU (getProp state ''prototype'')
        then Some (prototypingBundle state) else getProp (initialStageOutputs state) ''prototyping'')"
    by (simp add: backfill_Inr(1)[OF b3] backfill_Inr(1)[OF b2] backfill_Inr(1)[OF b1])
  have g3: "getProp so3 ''pitch'' = (if \<not> truthyU (getProp (initialStageOutputs state) ''pitch'') \<and> truthyU (getProp state ''pitch'')
        then Some (pitchBundle state) else getProp (initialStageOutputs state) ''pitch'')"
    by (simp add: backfill_Inr(1)[OF b3] backfill_Inr(1)[OF b2] backfill_Inr(1)[OF b1])
  show thesis using that[OF r t g1 g2 g3] .
qed

text \<open>
  The normalizer returns a value whenever \<^verbatim>\<open>state.stage_outputs\<close> is missing, falsy, an
  object or an array.
\<close>

lemma normalizeContext_returns:
  assumes "getProp context ''state'' = Some state" "isObject (initialStageOutputs state)"
  shows "\<exists>result. normalizeContext context = Inr result"
proof (cases "truthy state")
  case False
  then show ?thesis using assms by (simp add: normalizeContext_def)
next
  case True
  obtain so1 where b1: "backfill (initialStageOutputs state) ''idea_development'' (getProp state ''idea'') (ideaBundle state) = Inr so1"
    using backfill_isObject[OF assms(2)] by blast
  have o1: "isObject so1" using backfill_Inr(3)[OF b1] assms(2) by simp
  obtain so2 where b2: "backfill so1 ''prototyping'' (getProp state ''prototype'') (prototypingBundle state) = Inr so2"
    using backfill_isObject[OF o1] by blast
  have o2: "isObject so2" using backfill_Inr(3)[OF b2] o1 by simp
  obtain so3 where b3: "backfill so2 ''pitch'' (getProp state ''pitch'') (pitchBundle state) = Inr so3"
    using backfill_isObject[OF o2] by blast
  show ?thesis using assms(1) True b1 b2 b3 by (simp add: normalizeContext_def)
qed

text \<open>
  It throws where \<^verbatim>\<open>state.stage_outputs\<close> is a truthy primitive and a legacy field asks
  for a backfill: the assignment to a property of a string fails in strict code.
\<close>

lemma normalizeContext_throws:
  "normalizeContext (JObj [''state'' \<mapsto> JObj [''stage_outputs'' \<mapsto> JStr ''x'', ''idea'' \<mapsto> JObj Map.empty]])
     = Inl TypeError"
  by (simp add: normalizeContext_def backfill_def initialStageOutputs_def getProp_def strProps_def is_digit_def)

lemma stageOutput_result:
  "stageOutput (JObj (p(''state'' \<mapsto> JObj (s(''stage_outputs'' \<mapsto> so))))) stage = getProp so stage"
  by (simp add: stageOutput_def getProp_def)

lemma stageOutput_raw:
  assumes "getProp context ''state'' = Some state"
  shows "truthyU (stageOutput context stage) = truthyU (getProp (initialStageOutputs state) stage)"
  using assms by (simp add: stageOutput_def getProp_initialStageOutputs)

lemma truthy_entry_isObject:
  assumes "stage \<in> {''idea_development'', ''prototyping'', ''pitch''}" "truthyU (getProp so stage)"
  shows "isObject so"
  using assms by (cases so) (auto simp: getProp_def strProps_def is_digit_def)

text \<open>
  C1. For every raw context whose state section is present, after \<^verbatim>\<open>normalizeContext\<close> the
  \<^verbatim>\<open>stage_outputs\<close> entry of each of the three fixed stages is present if and only if it was
  present in the raw document or the stage's legacy indicator field (\<^verbatim>\<open>idea\<close>,
  \<^verbatim>\<open>prototype\<close>, \<^verbatim>\<open>pitch\<close>) was present in the raw state. Present is what the code tests:
  truthy. The first conjunct adds that a result exists whenever \<^verbatim>\<open>stage_outputs\<close> is
  missing, falsy, an object or an array.
\<close>

theorem normalizeContext_stage_presence:
  assumes st: "getProp context ''state'' = Some state" "truthy state"
      and sl: "(stage, legacy) \<in> {(''idea_development'', ''idea''), (''prototyping'', ''prototype''),
                 (''pitch'', ''pitch'')}"
  shows "(isObject (initialStageOutputs state) \<longrightarrow> (\<exists>result. normalizeContext context = Inr result)) \<and>
         (\<forall>result. normalizeContext context = Inr result \<longrightarrow>
            (truthyU (stageOutput result stage) \<longleftrightarrow>
               truthyU (stageOutput context stage) \<or> truthyU (getProp state legacy)))"
proof (intro conjI allI impI)
  assume "isObject (initialStageOutputs state)"
  then show "\<exists>result. normalizeContext context = Inr result"
    using normalizeContext_returns[OF st(1)] by blast
next
  fix result
  assume res: "normalizeContext context = Inr result"
  from normalizeContext_Inr[OF st res] obtain so where
    r: "result = JObj ((ownProps context)(''state'' \<mapsto> JObj ((ownProps state)(''stage_outputs'' \<mapsto> so))))"
    and g: "getProp so ''idea_development'' =
       (if \<not> truthyU (getProp (initialStageOutputs state) ''idea_development'') \<and> truthyU (getProp state ''idea'')
        then Some (ideaBundle state) else getProp (initialStageOutputs state) ''idea_development'')"
    "getProp so ''prototyping'' =
       (if \<not> truthyU (getProp (initialStageOutputs state) ''prototyping'') \<and> truthyU (getProp state ''prototype'')
        then Some (prototypingBundle state) else getProp (initialStageOutputs state) ''prototyping'')"
    "getProp so ''pitch'' =
       (if \<not> truthyU (getProp (initialStageOutputs state) ''pitch'') \<and> truthyU (getProp state ''pitch'')
        then Some (pitchBundle state) else getProp (initialStageOutputs state) ''pitch'')"
    by blast
  from sl consider "stage = ''idea_development''" "legacy = ''idea''"
    | "stage = ''prototyping''" "legacy = ''prototype''"
    | "stage = ''pitch''" "legacy = ''pitch''" by auto
  then show "truthyU (stageOutput result stage) \<longleftrightarrow>
               truthyU (stageOutput context stage) \<or> truthyU (getProp state legacy)"
    by cases (simp_all add: r stageOutput_result stageOutput_raw[OF st(1)] g truthy_bundles)
qed

text \<open>On the legacy example: the idea entry appears, the pitch entry does not.\<close>

theorem normalizeContext_stage_presence_witness:
  "\<exists>result. normalizeContext legacyContext = Inr result \<and>
     truthyU (stageOutput result ''idea_development'') \<and> \<not> truthyU (stageOutput result ''pitch'')"
proof -
  have st: "getProp legacyContext ''state'' = Some legacyState" "truthy legacyState"
    by (simp_all add: legacyContext_def legacyState_def getProp_def)
  have ob: "isObject (initialStageOutputs legacyState)"
    by (simp add: initialStageOutputs_def legacyState_def getProp_def)
  have raw: "stageOutput legacyContext ''idea_development'' = None"
    "stageOutput legacyContext ''pitch'' = None"
    "truthyU (getProp legacyState ''idea'')" "\<not> truthyU (getProp legacyState ''pitch'')"
    by (simp_all add: stageOutput_def example_defs getProp_def)
  from normalizeContext_stage_presence[OF st, of "''idea_development''" "''idea''"] ob
  obtain result where res: "normalizeContext legacyContext = Inr result"
    and a: "truthyU (stageOutput result ''idea_development'') \<longleftrightarrow>
       truthyU (stageOutput legacyContext ''idea_development'') \<or> truthyU (getProp legacyState ''idea'')"
    by auto
  from normalizeContext_stage_presence[OF st, of "''pitch''" "''pitch''"] res
  have b: "truthyU (stageOutput result ''pitch'') \<longleftrightarrow>
       truthyU (stageOutput legacyContext ''pitch'') \<or> truthyU (getProp legacyState ''pitch'')"
    by auto
  show ?thesis using res a b raw by auto
qed

text \<open>
  C2. For every input, well-formed or malformed, normalizing the normalizer's output gives
  that output again; where the first pass throws, so does the composition.
\<close>

theorem normalizeContext_idempotent:
  "(case normalizeContext x of Inl e \<Rightarrow> Inl e | Inr y \<Rightarrow> normalizeContext y) = normalizeContext x"
proof (cases "normalizeContext x")
  case (Inl e)
  then show ?thesis by simp
next
  case (Inr y)
  show ?thesis
  proof (cases "truthyU (getProp x ''state'')")
    case False
    then have "y = x" using Inr normalizeContext_no_state by simp
    then show ?thesis using Inr by simp
  next
    case True
    then obtain state where st: "getProp x ''state'' = Some state" "truthy state"
      by (cases "getProp x ''state''") auto
    from normalizeContext_Inr[OF st Inr] obtain so where
      r: "y = JObj ((ownProps x)(''state'' \<mapsto> JObj ((ownProps state)(''stage_outputs'' \<mapsto> so))))"
      and t: "truthy so"
      and g: "getProp so ''idea_development'' =
         (if \<not> truthyU (getProp (initialStageOutputs state) ''idea_development'') \<and> truthyU (getProp state ''idea'')
          then Some (ideaBundle state) else getProp (initialStageOutputs state) ''idea_development'')"
      "getProp so ''prototyping'' =
         (if \<not> truthyU (getProp (initialStageOutputs state) ''prototyping'') \<and> truthyU (getProp state ''prototype'')
          then Some (prototypingBundle state) else getProp (initialStageOutputs state) ''prototyping'')"
      "getProp so ''pitch'' =
         (if \<not> truthyU (getProp (initialStageOutputs state) ''pitch'') \<and> truthyU (getProp state ''pitch'')
          then Some (pitchBundle state) else getProp (initialStageOutputs state) ''pitch'')"
      by blast
    let ?state' = "JObj ((ownProps state)(''stage_outputs'' \<mapsto> so))"
    have s': "getProp y ''state'' = Some ?state'" by (simp add: r getProp_def)
    have i': "initialStageOutputs ?state' = so" using t by (simp add: initialStageOutputs_def getProp_def)
    have l: "getProp ?state' ''idea'' = getProp state ''idea''"
      "getProp ?state' ''prototype'' = getProp state ''prototype''"
      "getProp ?state' ''pitch'' = getProp state ''pitch''"
      by (simp_all add: getProp_def)
    have k1: "backfill so ''idea_development'' (getProp ?state' ''idea'') (ideaBundle ?state') = Inr so"
      unfolding backfill_def l using g(1) by (auto simp: truthy_bundles)
    have k2: "backfill so ''prototyping'' (getProp ?state' ''prototype'') (prototypingBundle ?state') = Inr so"
      unfolding backfill_def l using g(2) by (auto simp: truthy_bundles)
    have k3: "backfill so ''pitch'' (getProp ?state' ''pitch'') (pitchBundle ?state') = Inr so"
      unfolding backfill_def l using g(3) by (auto simp: truthy_bundles)
    have "normalizeContext y = Inr y"
      unfolding normalizeContext_def s' using i' k1 k2 k3 by (simp add: r)
    then show ?thesis using Inr by simp
  qed
qed

text \<open>On the legacy example the first pass changes the document and the second does not.\<close>

theorem normalizeContext_idempotent_witness:
  "normalizeContext legacyContext \<noteq> Inr legacyContext \<and>
   (case normalizeContext legacyContext of Inl e \<Rightarrow> Inl e | Inr y \<Rightarrow> normalizeContext y) =
     normalizeContext legacyContext"
proof -
  have "stageOutput legacyContext ''idea_development'' = None"
    by (simp add: stageOutput_def example_defs getProp_def)
  moreover have "\<exists>r. normalizeContext legacyContext = Inr r \<and> stageOutput r ''idea_development'' \<noteq> None"
    by (simp add: normalizeContext_def backfill_def initialStageOutputs_def stageOutput_def
        example_defs getProp_def)
  ultimately have "normalizeContext legacyContext \<noteq> Inr legacyContext" by auto
  then show ?thesis using normalizeContext_idempotent[of legacyContext] by simp
qed

text \<open>
  C3. For every raw context in which \<^verbatim>\<open>stage_outputs[stage]\<close> is already present for one of
  the three stages, \<^verbatim>\<open>normalizeContext\<close> returns, and returns that entry unchanged, whatever
  the legacy flat fields hold.
\<close>

theorem normalizeContext_keeps_existing:
  assumes sg: "stage \<in> {''idea_development'', ''prototyping'', ''pitch''}"
      and pr: "truthyU (stageOutput context stage)"
  shows "\<exists>result. normalizeContext context = Inr result \<and>
           stageOutput result stage = stageOutput context stage"
proof -
  from pr obtain state so where
    st: "getProp context ''state'' = Some state" and
    so: "getProp state ''stage_outputs'' = Some so" and
    en: "truthyU (getProp so stage)" "stageOutput context stage = getProp so stage"
    by (auto simp: stageOutput_def split: option.splits)
  have ob: "isObject so" using truthy_entry_isObject[OF sg en(1)] .
  have ini: "initialStageOutputs state = so"
    using so ob by (simp add: initialStageOutputs_def isObject_truthy)
  have ts: "truthy state"
    using so by (cases state) (auto simp: getProp_def strProps_def is_digit_def)
  from normalizeContext_returns[OF st] ob ini obtain result where
    res: "normalizeContext context = Inr result" by auto
  from normalizeContext_Inr[OF st ts res] obtain so' where
    r: "result = JObj ((ownProps context)(''state'' \<mapsto> JObj ((ownProps state)(''stage_outputs'' \<mapsto> so'))))"
    and g: "getProp so' ''idea_development'' =
       (if \<not> truthyU (getProp (initialStageOutputs state) ''idea_development'') \<and> truthyU (getProp state ''idea'')
        then Some (ideaBundle state) else getProp (initialStageOutputs state) ''idea_development'')"
    "getProp so' ''prototyping'' =
       (if \<not> truthyU (getProp (initialStageOutputs state) ''prototyping'') \<and> truthyU (getProp state ''prototype'')
        then Some (prototypingBundle state) else getProp (initialStageOutputs state) ''prototyping'')"
    "getProp so' ''pitch'' =
       (if \<not> truthyU (getProp (initialStageOutputs state) ''pitch'') \<and> truthyU (getProp state ''pitch'')
        then Some (pitchBundle state) else getProp (initialStageOutputs state) ''pitch'')"
    by blast
  have "getProp so' stage = getProp so stage"
    using sg en(1) g by (auto simp: ini)
  then show ?thesis using res en(2) by (simp add: r stageOutput_result)
qed

text \<open>
  On the structured example the legacy \<^verbatim>\<open>idea\<close> is present and would give another bundle;
  the existing entry is returned.
\<close>

theorem normalizeContext_keeps_existing_witness:
  "truthyU (getProp structuredState ''idea'') \<and>
   (\<exists>result. normalizeContext structuredContext = Inr result \<and>
      stageOutput result ''idea_development'' = Some structuredEntry \<and>
      Some structuredEntry \<noteq> Some (ideaBundle structuredState))"
proof -
  have pr: "stageOutput structuredContext ''idea_development'' = Some structuredEntry"
    by (simp add: stageOutput_def structuredContext_def structuredState_def getProp_def)
  have t: "truthy structuredEntry" by (simp add: structuredEntry_def)
  have d: "getProp structuredEntry ''converged'' \<noteq> getProp (ideaBundle structuredState) ''converged''"
    by (simp add: structuredEntry_def ideaBundle_def getProp_def)
  have i: "truthyU (getProp structuredState ''idea'')"
    by (simp add: structuredState_def exampleIdea_def getProp_def)
  from normalizeContext_keeps_existing[of "''idea_development''" structuredContext] pr t
  obtain result where "normalizeContext structuredContext = Inr result"
    "stageOutput result ''idea_development'' = Some structuredEntry" by auto
  then show ?thesis using d i by auto
qed

text \<open>
  C4, as the code has it. For every raw context whose state has the legacy field
  \<^verbatim>\<open>idea = I\<close> and no \<^verbatim>\<open>stage_outputs\<close>, \<^verbatim>\<open>normalizeContext\<close> returns with
  \<^verbatim>\<open>stage_outputs.idea_development\<close> set to the bundle of \<^verbatim>\<open>idea: I\<close>, the state's
  \<^verbatim>\<open>research\<close>, \<^verbatim>\<open>final_validation\<close>, the state's \<^verbatim>\<open>legal_insights\<close> unless \<^verbatim>\<open>null\<close> and the
  state's \<^verbatim>\<open>refinement_feedback\<close>. Its \<^verbatim>\<open>final_validation\<close> is \<^verbatim>\<open>research_final = V\<close> when that
  is present and \<^verbatim>\<open>research\<close> when \<^verbatim>\<open>research_final\<close> is absent. For a state with none of
  \<^verbatim>\<open>research\<close>, \<^verbatim>\<open>legal_insights\<close> and \<^verbatim>\<open>refinement_feedback\<close>, such as
  \<^verbatim>\<open>{idea: I, research_final: V}\<close>, the bundle is exactly \<^verbatim>\<open>{idea: I, final_validation: V}\<close>.
\<close>

theorem normalizeContext_idea_backfill:
  assumes st: "getProp context ''state'' = Some state" "truthy state"
      and no: "getProp state ''stage_outputs'' = None"
      and idea: "getProp state ''idea'' = Some I" "truthy I"
  shows "\<exists>result bundle. normalizeContext context = Inr result \<and>
           stageOutput result ''idea_development'' = Some bundle \<and>
           bundle = JObj (Map.empty
             (''idea'' \<mapsto> I,
              ''research'' := getProp state ''research'',
              ''final_validation'' :=
                 (if truthyU (getProp state ''research_final'') then getProp state ''research_final''
                  else getProp state ''research''),
              ''legal_insights'' :=
                 (case getProp state ''legal_insights'' of Some JNull \<Rightarrow> None | v \<Rightarrow> v),
              ''refinement_feedback'' := getProp state ''refinement_feedback'')) \<and>
           getProp bundle ''idea'' = Some I \<and>
           (\<forall>V. getProp state ''research_final'' = Some V \<and> truthy V \<longrightarrow>
              getProp bundle ''final_validation'' = Some V) \<and>
           (getProp state ''research_final'' = None \<longrightarrow>
              getProp bundle ''final_validation'' = getProp state ''research'') \<and>
           (\<forall>V. getProp state ''research_final'' = Some V \<and> truthy V \<and>
                getProp state ''research'' = None \<and> getProp state ''legal_insights'' = None \<and>
                getProp state ''refinement_feedback'' = None \<longrightarrow>
              bundle = JObj [''idea'' \<mapsto> I, ''final_validation'' \<mapsto> V])"
proof -
  have ini: "initialStageOutputs state = JObj Map.empty"
    using no by (simp add: initialStageOutputs_def)
  from normalizeContext_returns[OF st(1)] ini obtain result where
    res: "normalizeContext context = Inr result" by auto
  from normalizeContext_Inr[OF st res] obtain so' where
    r: "result = JObj ((ownProps context)(''state'' \<mapsto> JObj ((ownProps state)(''stage_outputs'' \<mapsto> so'))))"
    and g: "getProp so' ''idea_development'' =
       (if \<not> truthyU (getProp (initialStageOutputs state) ''idea_development'') \<and> truthyU (getProp state ''idea'')
        then Some (ideaBundle state) else getProp (initialStageOutputs state) ''idea_development'')"
    by blast
  have e: "stageOutput result ''idea_development'' = Some (ideaBundle state)"
    using g idea by (simp add: r stageOutput_result ini getProp_def)
  have b0: "ideaBundle state = JObj (Map.empty
             (''idea'' \<mapsto> I,
              ''research'' := getProp state ''research'',
              ''final_validation'' :=
                 (if truthyU (getProp state ''research_final'') then getProp state ''research_final''
                  else getProp state ''research''),
              ''legal_insights'' :=
                 (case getProp state ''legal_insights'' of Some JNull \<Rightarrow> None | v \<Rightarrow> v),
              ''refinement_feedback'' := getProp state ''refinement_feedback''))"
    using idea(1) by (simp add: ideaBundle_def)
  have b1: "getProp (ideaBundle state) ''idea'' = Some I"
    using idea by (simp add: ideaBundle_def getProp_def)
  have b2: "\<forall>V. getProp state ''research_final'' = Some V \<and> truthy V \<longrightarrow>
              getProp (ideaBundle state) ''final_validation'' = Some V"
    by (simp add: ideaBundle_def getProp_def)
  have b3: "getProp state ''research_final'' = None \<longrightarrow>
              getProp (ideaBundle state) ''final_validation'' = getProp state ''research''"
    by (simp add: ideaBundle_def getProp_def)
  have b4: "\<forall>V. getProp state ''research_final'' = Some V \<and> truthy V \<and>
                getProp state ''research'' = None \<and> getProp state ''legal_insights'' = None \<and>
                getProp state ''refinement_feedback'' = None \<longrightarrow>
              ideaBundle state = JObj [''idea'' \<mapsto> I, ''final_validation'' \<mapsto> V]"
    using idea by (auto simp: ideaBundle_def fun_eq_iff)
  from res e b0 b1 b2 b3 b4 show ?thesis
    by (intro exI[of _ result] exI[of _ "ideaBundle state"] conjI)
qed

text \<open>The legacy example is such a state.\<close>

theorem normalizeContext_idea_backfill_witness:
  "\<exists>result. normalizeContext legacyContext = Inr result \<and>
     stageOutput result ''idea_development'' =
       Some (JObj [''idea'' \<mapsto> exampleIdea, ''final_validation'' \<mapsto> exampleValidation])"
proof -
  have st: "getProp legacyContext ''state'' = Some legacyState" "truthy legacyState"
    by (simp_all add: legacyContext_def legacyState_def getProp_def)
  have h: "getProp legacyState ''stage_outputs'' = None"
    "getProp legacyState ''idea'' = Some exampleIdea" "truthy exampleIdea"
    "getProp legacyState ''research_final'' = Some exampleValidation" "truthy exampleValidation"
    "getProp legacyState ''research'' = None" "getProp legacyState ''legal_insights'' = None"
    "getProp legacyState ''refinement_feedback'' = None"
    by (simp_all add: example_defs getProp_def)
  from normalizeContext_idea_backfill[OF st h(1,2,3)] obtain result b where
    r: "normalizeContext legacyContext = Inr result"
       "stageOutput result ''idea_development'' = Some b"
    and x: "\<forall>V. getProp legacyState ''research_final'' = Some V \<and> truthy V \<and>
                getProp legacyState ''research'' = None \<and> getProp legacyState ''legal_insights'' = None \<and>
                getProp legacyState ''refinement_feedback'' = None \<longrightarrow>
              b = JObj [''idea'' \<mapsto> exampleIdea, ''final_validation'' \<mapsto> V]"
    by blast
  from x h(4-8) have "b = JObj [''idea'' \<mapsto> exampleIdea, ''final_validation'' \<mapsto> exampleValidation]"
    by blast
  with r show ?thesis by simp
qed

text \<open>
  A state that also has \<^verbatim>\<open>research\<close>: the bundle carries it, so it is not
  \<^verbatim>\<open>{idea: I, final_validation: V}\<close>.
\<close>

theorem normalizeContext_idea_backfill_counterexample:
  "getProp researchedContext ''state'' = Some researchedState \<and>
   getProp researchedState ''idea'' = Some exampleIdea \<and>
   getProp researchedState ''research_final'' = Some exampleValidation \<and>
   getProp researchedState ''stage_outputs'' = None \<and>
   (case normalizeContext researchedContext of
      Inl e \<Rightarrow> None
    | Inr result \<Rightarrow> stageOutput result ''idea_development'') =
     Some (JObj [''idea'' \<mapsto> exampleIdea, ''research'' \<mapsto> exampleResearch,
                 ''final_validation'' \<mapsto> exampleValidation]) \<and>
   JObj [''idea'' \<mapsto> exampleIdea, ''research'' \<mapsto> exampleResearch,
         ''final_validation'' \<mapsto> exampleValidation] \<noteq>
     JObj [''idea'' \<mapsto> exampleIdea, ''final_validation'' \<mapsto> exampleValidation]"
proof -
  have a: "getProp researchedContext ''state'' = Some researchedState"
    "getProp researchedState ''idea'' = Some exampleIdea"
    "getProp researchedState ''research_final'' = Some exampleValidation"
    "getProp researchedState ''stage_outputs'' = None"
    by (simp_all add: researchedContext_def researchedState_def getProp_def)
  have b: "ideaBundle researchedState =
      JObj [''idea'' \<mapsto> exampleIdea, ''research'' \<mapsto> exampleResearch,
            ''final_validation'' \<mapsto> exampleValidation]"
    by (auto simp: ideaBundle_def researchedState_def exampleValidation_def getProp_def fun_eq_iff)
  have c: "(case normalizeContext researchedContext of
      Inl e \<Rightarrow> None
    | Inr result \<Rightarrow> stageOutput result ''idea_development'') = Some (ideaBundle researchedState)"
    by (simp add: normalizeContext_def backfill_def initialStageOutputs_def stageOutput_def
        researchedContext_def researchedState_def exampleIdea_def getProp_def)
  have d: "[''idea'' \<mapsto> exampleIdea, ''research'' \<mapsto> exampleResearch,
            ''final_validation'' \<mapsto> exampleValidation] ''research'' \<noteq>
           [''idea'' \<mapsto> exampleIdea, ''final_validation'' \<mapsto> exampleValidation] ''research''"
    by simp
  then have "[''idea'' \<mapsto> exampleIdea, ''research'' \<mapsto> exampleResearch,
            ''final_validation'' \<mapsto> exampleValidation] \<noteq>
           [''idea'' \<mapsto> exampleIdea, ''final_validation'' \<mapsto> exampleValidation]"
    by metis
  with a b c show ?thesis by simp
qed

text \<open>
  C10. For every raw context whose state section is present, \<^verbatim>\<open>normalizeContext\<close> changes
  nothing but \<^verbatim>\<open>state.stage_outputs\<close>: every top-level field other than \<^verbatim>\<open>state\<close> and every
  state field other than \<^verbatim>\<open>stage_outputs\<close> reads in the result as it does in the input.
\<close>

theorem normalizeContext_frame:
  assumes st: "getProp context ''state'' = Some state" "truthy state"
      and res: "normalizeContext context = Inr result"
  shows "(\<forall>k. k \<noteq> ''state'' \<longrightarrow> getProp result k = getProp context k) \<and>
         (\<exists>state'. getProp result ''state'' = Some state' \<and>
            (\<forall>k. k \<noteq> ''stage_outputs'' \<longrightarrow> getProp state' k = getProp state k))"
proof -
  from normalizeContext_Inr[OF st res] obtain so where
    r: "result = JObj ((ownProps context)(''state'' \<mapsto> JObj ((ownProps state)(''stage_outputs'' \<mapsto> so))))"
    by blast
  show ?thesis by (simp add: r getProp_def)
qed

text \<open>
  On the legacy example \<^verbatim>\<open>history_length\<close> and \<^verbatim>\<open>state.iterations\<close> are kept while
  \<^verbatim>\<open>state.stage_outputs\<close> changes.
\<close>

theorem normalizeContext_frame_witness:
  "\<exists>result state'. normalizeContext legacyContext = Inr result \<and>
     getProp result ''history_length'' = Some (JNum 3) \<and>
     getProp result ''state'' = Some state' \<and>
     getProp state' ''iterations'' = Some (JNum 2) \<and>
     getProp state' ''stage_outputs'' \<noteq> getProp legacyState ''stage_outputs''"
proof -
  have st: "getProp legacyContext ''state'' = Some legacyState" "truthy legacyState"
    by (simp_all add: legacyContext_def legacyState_def getProp_def)
  obtain result where res: "normalizeContext legacyContext = Inr result"
    and so: "getProp result ''state'' = Some (JObj ((ownProps legacyState)(''stage_outputs'' \<mapsto>
        JObj [''idea_development'' \<mapsto> ideaBundle legacyState])))"
    by (simp add: normalizeContext_def backfill_def initialStageOutputs_def example_defs getProp_def)
  have v: "getProp legacyContext ''history_length'' = Some (JNum 3)"
    "getProp legacyState ''iterations'' = Some (JNum 2)"
    "getProp legacyState ''stage_outputs'' = None"
    by (simp_all add: example_defs getProp_def)
  from normalizeContext_frame[OF st res] obtain state' where
    f: "getProp result ''history_length'' = getProp legacyContext ''history_length''"
       "getProp result ''state'' = Some state'"
       "getProp state' ''iterations'' = getProp legacyState ''iterations''"
    by auto
  have "getProp state' ''stage_outputs'' \<noteq> getProp legacyState ''stage_outputs''"
    using f(2) so v(3) by (auto simp: getProp_def)
  with res f v show ?thesis by auto
qed

section \<open>Properties of the string functions\<close>

lemma startsWith_prefix: "startsWith s p \<longleftrightarrow> (\<exists>t. s = p @ t)"
  by (induction s p rule: startsWith.induct) auto

lemma includesStr_iff: "includesStr s p \<longleftrightarrow> (\<exists>a b. s = a @ p @ b)"
proof (induction s)
  case Nil
  then show ?case by simp
next
  case (Cons c cs)
  show ?case
  proof
    assume "includesStr (c # cs) p"
    then consider "startsWith (c # cs) p" | "includesStr cs p" by auto
    then show "\<exists>a b. c # cs = a @ p @ b"
    proof cases
      case 1
      then obtain t where "c # cs = p @ t" using startsWith_prefix by blast
      then have "c # cs = [] @ p @ t" by simp
      then show ?thesis by blast
    next
      case 2
      then obtain a b where "cs = a @ p @ b" using Cons.IH by blast
      then have "c # cs = (c # a) @ p @ b" by simp
      then show ?thesis by blast
    qed
  next
    assume "\<exists>a b. c # cs = a @ p @ b"
    then obtain a b where ab: "c # cs = a @ p @ b" by blast
    show "includesStr (c # cs) p"
    proof (cases a)
      case Nil
      then have "startsWith (c # cs) p" using ab startsWith_prefix by auto
      then show ?thesis by simp
    next
      case (Cons a0 as)
      then have "cs = as @ p @ b" using ab by simp
      then have "includesStr cs p" using Cons.IH by blast
      then show ?thesis by simp
    qed
  qed
qed

lemma lexCompare_range: "lexCompare a b \<in> {- 1, 0, 1}"
  by (induction a b rule: lexCompare.induct) auto





lemma lexCompare_append: "lexCompare (p @ a) (p @ b) = lexCompare a b"
  by (induction p) auto

section \<open>Sorting with a consistent comparator\<close>

lemma set_insertBy: "set (insertBy cmp x ys) = insert x (set ys)"
  by (induction ys) auto

lemma set_sortBy: "set (sortBy cmp xs) = set xs"
  unfolding sortBy_def by (induction xs) (simp_all add: set_insertBy)

lemma sorted_insertBy:
  assumes total: "\<And>a b. a \<in> S \<Longrightarrow> b \<in> S \<Longrightarrow> cmp a b \<le> 0 \<or> cmp b a \<le> 0"
      and trans: "\<And>a b c. a \<in> S \<Longrightarrow> b \<in> S \<Longrightarrow> c \<in> S \<Longrightarrow>
                    cmp a b \<le> 0 \<Longrightarrow> cmp b c \<le> 0 \<Longrightarrow> cmp a c \<le> 0"
      and mem: "x \<in> S" "set ys \<subseteq> S"
      and sorted: "sorted_wrt (\<lambda>a b. cmp a b \<le> 0) ys"
  shows "sorted_wrt (\<lambda>a b. cmp a b \<le> 0) (insertBy cmp x ys)"
  using mem(2) sorted
proof (induction ys)
  case Nil
  then show ?case by simp
next
  case (Cons y ys)
  have y: "y \<in> S" and ys: "set ys \<subseteq> S" using Cons.prems(1) by auto
  show ?case
  proof (cases "cmp x y \<le> 0")
    case True
    have "cmp x z \<le> 0" if "z \<in> set ys" for z
    proof -
      have "cmp y z \<le> 0" using Cons.prems(2) that by simp
      then show ?thesis using trans[OF mem(1) y _ True] that ys by blast
    qed
    then show ?thesis using True Cons.prems(2) by simp
  next
    case False
    then have "cmp y x \<le> 0" using total[OF mem(1) y] by simp
    moreover have "sorted_wrt (\<lambda>a b. cmp a b \<le> 0) (insertBy cmp x ys)"
      using Cons.IH[OF ys] Cons.prems(2) by simp
    ultimately show ?thesis using False Cons.prems(2) by (auto simp: set_insertBy)
  qed
qed

lemma sorted_sortBy:
  assumes total: "\<And>a b. a \<in> set xs \<Longrightarrow> b \<in> set xs \<Longrightarrow> cmp a b \<le> 0 \<or> cmp b a \<le> 0"
      and trans: "\<And>a b c. a \<in> set xs \<Longrightarrow> b \<in> set xs \<Longrightarrow> c \<in> set xs \<Longrightarrow>
                    cmp a b \<le> 0 \<Longrightarrow> cmp b c \<le> 0 \<Longrightarrow> cmp a c \<le> 0"
  shows "sorted_wrt (\<lambda>a b. cmp a b \<le> 0) (sortBy cmp xs)"
proof -
  have "set ys \<subseteq> set xs \<Longrightarrow> sorted_wrt (\<lambda>a b. cmp a b \<le> 0) (foldr (insertBy cmp) ys [])" for ys
  proof (induction ys)
    case Nil
    then show ?case by simp
  next
    case (Cons y ys)
    have s: "set (foldr (insertBy cmp) ys []) \<subseteq> set xs"
      using Cons.prems set_sortBy[of cmp ys] by (simp add: sortBy_def)
    have "sorted_wrt (\<lambda>a b. cmp a b \<le> 0) (insertBy cmp y (foldr (insertBy cmp) ys []))"
      by (rule sorted_insertBy[where S = "set xs", OF total trans _ s])
         (use Cons in auto)
    then show ?case by simp
  qed
  then show ?thesis by (simp add: sortBy_def)
qed

lemma length_insertBy: "length (insertBy cmp x ys) = Suc (length ys)"
  by (induction ys) auto

lemma length_sortBy: "length (sortBy cmp xs) = length xs"
  unfolding sortBy_def by (induction xs) (simp_all add: length_insertBy)

section \<open>Properties of the directory listing\<close>




section \<open>Properties of the listing endpoint\<close>

lemmas io_defs = bindIO_def returnIO_def throwIO_def fsCall_def liftJs_def readJson_def tryCatch_def

lemmas host_defs = exampleHost_def mixedCaseHost_def readdir_def readdirTypes_def sortBy_def
  collate_def collationKey_def is_digit_def

lemma listExperiments_Ok:
  assumes "fst (listExperiments h) = Ok experiments"
  shows "\<exists>scanned. experiments = sortBy (\<lambda>a b. localeCompare h (exp_id b) (exp_id a)) scanned"
  using assms
  by (auto simp: listExperiments_def io_defs split: sum.splits prod.splits)

lemma exampleListing:
  "fst (listExperiments exampleHost) =
     Ok [\<lparr>exp_id = ''experiment_20240102_000000'', exp_type = Full, hasStatistics = False,
          hasCompleteContext = False, hasResults = False,
          contextFiles = [''context_idea_development.json'', ''context_pitch.json''],
          timestamp = ''2024-01-03T00:00:00.000Z''\<rparr>,
         \<lparr>exp_id = ''experiment_20240101_000000'', exp_type = Full, hasStatistics = True,
          hasCompleteContext = True, hasResults = True,
          contextFiles = [''context_final.json'', ''results.json'', ''statistics.json''],
          timestamp = ''2024-01-03T00:00:00.000Z''\<rparr>,
         \<lparr>exp_id = ''demo'', exp_type = Full, hasStatistics = False,
          hasCompleteContext = False, hasResults = False, contextFiles = [],
          timestamp = ''2024-01-03T00:00:00.000Z''\<rparr>]"
  by (simp add: listExperiments_def io_defs host_defs endsWith_def)

lemma scanEntries_kind:
  assumes "scanEntries h entries log = (Inr experiments, log')"
  shows "\<forall>e \<in> set experiments.
           exp_type e = (if startsWith (exp_id e) ''stage_run_'' then StageRun else Full)"
  using assms
proof (induction entries arbitrary: log log' experiments)
  case Nil
  then show ?case by (simp add: returnIO_def)
next
  case (Cons entry entries)
  obtain name isDirectory where en: "entry = (name, isDirectory)" by (cases entry)
  show ?case
  proof (cases "isDirectory \<and> \<not> startsWith name ''.''")
    case False
    then show ?thesis using Cons en by auto
  next
    case True
    with Cons.prems en obtain files mtime rest l where
      r: "scanEntries h entries l = (Inr rest, log')"
      and e: "experiments =
         \<lparr>exp_id = name,
          exp_type = (if startsWith name ''stage_run_'' then StageRun else Full),
          hasStatistics = (''statistics.json'' \<in> set files),
          hasCompleteContext = (''context_final.json'' \<in> set files),
          hasResults = (''results.json'' \<in> set files),
          contextFiles = filter (\<lambda>f. endsWith f ''.json'') files,
          timestamp = mtime\<rparr> # rest"
      by (auto simp: io_defs split: sum.splits prod.splits)
    from Cons.IH[OF r] show ?thesis by (simp add: e)
  qed
qed

lemma listExperiments_kind:
  assumes "fst (listExperiments h) = Ok experiments"
  shows "\<forall>e \<in> set experiments.
           exp_type e = StageRun \<longleftrightarrow> startsWith (exp_id e) ''stage_run_''"
proof -
  from assms obtain entries scanned l l' where
    s: "scanEntries h entries l = (Inr scanned, l')"
    and e: "experiments = sortBy (\<lambda>a b. localeCompare h (exp_id b) (exp_id a)) scanned"
    by (auto simp: listExperiments_def io_defs split: sum.splits prod.splits)
  from scanEntries_kind[OF s] show ?thesis by (simp add: e set_sortBy)
qed

text \<open>
  The collation model orders two names that differ only in digits, such as two ids with
  zero-padded date-time suffixes, as their character codes do: the later date is after.
\<close>

lemma primaryCompare_append: "primaryCompare (p @ a) (p @ b) = primaryCompare a b"
  by (induction p) auto

lemma primaryCompare_dated:
  assumes "list_all2 (\<lambda>x y. is_digit x \<and> is_digit y \<or> x = y) d1 d2"
  shows "primaryCompare d1 d2 = lexCompare d1 d2"
  using assms
proof (induction d1 d2 rule: list_all2_induct)
  case Nil
  then show ?case by simp
next
  case (Cons x xs y ys)
  then show ?case by (auto simp: collationKey_def is_digit_def)
qed

lemma collate_dated:
  assumes "list_all2 (\<lambda>x y. is_digit x \<and> is_digit y \<or> x = y) d1 d2"
      and "lexCompare d1 d2 < 0"
  shows "collate (p @ d1) (p @ d2) < 0"
  using assms by (simp add: collate_def primaryCompare_append primaryCompare_dated)

text \<open>
  C9, as the code has it. \<^verbatim>\<open>listExperiments\<close> returns the summaries in descending order of
  their ids under the host's collation (\<^verbatim>\<open>localeCompare\<close>, a consistent comparator on the
  listed ids): an id never comes before one the collation puts after it, and of two listed
  ids the one the collation puts after the other comes first. The collation puts an id
  with a later zero-padded date-time suffix after the same id with an earlier one, so the
  later date comes first.
\<close>

theorem listExperiments_descending:
  assumes cons: "consistentOn (exp_id ` set experiments) (localeCompare h)"
      and res: "fst (listExperiments h) = Ok experiments"
  shows "sorted_wrt (\<lambda>a b. localeCompare h (exp_id b) (exp_id a) \<le> 0) experiments \<and>
         (\<forall>i j. i < length experiments \<and> j < length experiments \<and>
             localeCompare h (exp_id (experiments ! i)) (exp_id (experiments ! j)) < 0 \<longrightarrow> j < i)"
proof -
  let ?cmp = "\<lambda>a b. localeCompare h (exp_id b) (exp_id a)"
  from listExperiments_Ok[OF res] obtain scanned where
    e: "experiments = sortBy ?cmp scanned" by blast
  have mem: "set scanned = set experiments" by (simp add: e set_sortBy)
  have anti: "(localeCompare h (exp_id a) (exp_id b) < 0) = (0 < localeCompare h (exp_id b) (exp_id a))"
    if "a \<in> set experiments" "b \<in> set experiments" for a b
    using cons that unfolding consistentOn_def by blast
  have tr: "localeCompare h (exp_id a) (exp_id c) \<le> 0"
    if "a \<in> set experiments" "b \<in> set experiments" "c \<in> set experiments"
       "localeCompare h (exp_id a) (exp_id b) \<le> 0" "localeCompare h (exp_id b) (exp_id c) \<le> 0"
    for a b c
    using cons that unfolding consistentOn_def by blast
  have total: "?cmp a b \<le> 0 \<or> ?cmp b a \<le> 0"
    if "a \<in> set scanned" "b \<in> set scanned" for a b
    using anti[of a b] that unfolding mem by linarith
  have trans: "?cmp a c \<le> 0"
    if "a \<in> set scanned" "b \<in> set scanned" "c \<in> set scanned" "?cmp a b \<le> 0" "?cmp b c \<le> 0"
    for a b c
    using tr[of c b a] that unfolding mem by simp
  have s: "sorted_wrt (\<lambda>a b. ?cmp a b \<le> 0) experiments"
    unfolding e by (rule sorted_sortBy[of scanned ?cmp]) (use total trans in blast)+
  have "j < i" if h: "i < length experiments" "j < length experiments"
      "localeCompare h (exp_id (experiments ! i)) (exp_id (experiments ! j)) < 0" for i j
  proof (rule ccontr)
    assume "\<not> j < i"
    then consider "i = j" | "i < j" by linarith
    then show False
    proof cases
      case 1
      then show False using h anti[of "experiments ! i" "experiments ! i"] by simp
    next
      case 2
      from sorted_wrt_nth_less[OF s 2 h(2)]
      have "localeCompare h (exp_id (experiments ! j)) (exp_id (experiments ! i)) \<le> 0" by simp
      then show False using h anti[of "experiments ! i" "experiments ! j"] by simp
    qed
  qed
  then show ?thesis using s by blast
qed

text \<open>The example host's listing, newest id first.\<close>

theorem listExperiments_descending_witness:
  "map exp_id (case fst (listExperiments exampleHost) of Ok es \<Rightarrow> es | Error s m \<Rightarrow> []) =
     [''experiment_20240102_000000'', ''experiment_20240101_000000'', ''demo''] \<and>
   collate ''experiment_20240101_000000'' ''experiment_20240102_000000'' < 0 \<and>
   sorted_wrt (\<lambda>a b. collate b a \<le> 0)
     [''experiment_20240102_000000'', ''experiment_20240101_000000'', ''demo'']"
proof -
  obtain es where es: "fst (listExperiments exampleHost) = Ok es"
    and ids: "map exp_id es = [''experiment_20240102_000000'', ''experiment_20240101_000000'', ''demo'']"
    using exampleListing by simp
  have lc: "localeCompare exampleHost = collate" by (simp add: exampleHost_def)
  have img: "exp_id ` set es = {''experiment_20240102_000000'', ''experiment_20240101_000000'', ''demo''}"
    using ids by (metis list.set_map list.simps(15) empty_set)
  have cons: "consistentOn (exp_id ` set es) (localeCompare exampleHost)"
    unfolding img lc consistentOn_def
    by (simp add: collate_def collationKey_def is_digit_def)
  from listExperiments_descending[OF cons es]
  have "sorted_wrt (\<lambda>a b. localeCompare exampleHost (exp_id b) (exp_id a) \<le> 0) es" by blast
  then have "sorted_wrt (\<lambda>a b. collate b a \<le> 0) (map exp_id es)"
    by (simp add: sorted_wrt_map lc)
  moreover have "collate ''experiment_20240101_000000'' ''experiment_20240102_000000'' < 0"
    by (simp add: collate_def collationKey_def is_digit_def)
  ultimately show ?thesis using es ids by simp
qed

text \<open>
  The collation is not the lexical order: with the directories \<^verbatim>\<open>MyExperiment\<close> and
  \<^verbatim>\<open>demo\<close> the listing starts with \<^verbatim>\<open>MyExperiment\<close>, the lexically smaller id.
\<close>

theorem listExperiments_descending_counterexample:
  "fst (listExperiments mixedCaseHost) =
     Ok [\<lparr>exp_id = ''MyExperiment'', exp_type = Full, hasStatistics = False,
          hasCompleteContext = False, hasResults = False, contextFiles = [],
          timestamp = ''2024-01-03T00:00:00.000Z''\<rparr>,
         \<lparr>exp_id = ''demo'', exp_type = Full, hasStatistics = False,
          hasCompleteContext = False, hasResults = False, contextFiles = [],
          timestamp = ''2024-01-03T00:00:00.000Z''\<rparr>] \<and>
   lexCompare ''MyExperiment'' ''demo'' < 0"
  by (simp add: listExperiments_def io_defs host_defs endsWith_def)

section \<open>Properties of the per-experiment endpoint\<close>

lemma getExperiment_kind:
  assumes "fst (getExperiment h eid) = Ok body"
  shows "exp_type (case body of WithContext d c \<Rightarrow> d | WithResults d r \<Rightarrow> d | Summary d \<Rightarrow> d) =
           (if startsWith eid ''experiment_'' then Full else StageRun)"
  using assms
  by (auto simp: getExperiment_def io_defs Let_def split: sum.splits prod.splits option.splits if_splits)


text \<open>
  C6. The kind reported for an id is \<open>StageRun\<close> if and only if the id begins with
  \<^verbatim>\<open>stage_run_\<close>, on both endpoints. The listing does so (\<open>listExperiments_kind\<close>); the
  per-experiment endpoint reports \<open>Full\<close> only for ids that begin with \<^verbatim>\<open>experiment_\<close>
  (\<open>getExperiment_kind\<close>). For the directory \<^verbatim>\<open>demo\<close> the listing says \<open>Full\<close> and the
  per-experiment endpoint says \<open>StageRun\<close>.
\<close>

theorem getExperiment_kind_mismatch:
  "\<not> startsWith ''demo'' ''stage_run_'' \<and>
   fst (listExperiments exampleHost) =
     Ok [\<lparr>exp_id = ''experiment_20240102_000000'', exp_type = Full, hasStatistics = False,
          hasCompleteContext = False, hasResults = False,
          contextFiles = [''context_idea_development.json'', ''context_pitch.json''],
          timestamp = ''2024-01-03T00:00:00.000Z''\<rparr>,
         \<lparr>exp_id = ''experiment_20240101_000000'', exp_type = Full, hasStatistics = True,
          hasCompleteContext = True, hasResults = True,
          contextFiles = [''context_final.json'', ''results.json'', ''statistics.json''],
          timestamp = ''2024-01-03T00:00:00.000Z''\<rparr>,
         \<lparr>exp_id = ''demo'', exp_type = Full, hasStatistics = False,
          hasCompleteContext = False, hasResults = False, contextFiles = [],
          timestamp = ''2024-01-03T00:00:00.000Z''\<rparr>] \<and>
   fst (getExperiment exampleHost ''demo'') =
     Ok (Summary
          \<lparr>exp_id = ''demo'', exp_type = StageRun, hasStatistics = False,
           hasCompleteContext = False, hasResults = False, contextFiles = [],
           timestamp = ''2024-01-03T00:00:00.000Z'', subfolders = []\<rparr>)"
proof -
  have "fst (getExperiment exampleHost ''demo'') =
     Ok (Summary
          \<lparr>exp_id = ''demo'', exp_type = StageRun, hasStatistics = False,
           hasCompleteContext = False, hasResults = False, contextFiles = [],
           timestamp = ''2024-01-03T00:00:00.000Z'', subfolders = []\<rparr>)"
    by (simp add: getExperiment_def io_defs host_defs endsWith_def)
  then show ?thesis using exampleListing by simp
qed



text \<open>
  C8, as the code has it. When the experiment's directory cannot be listed, as for a
  directory that does not exist, \<^verbatim>\<open>getExperiment\<close> answers with status 500 and the message
  \<^verbatim>\<open>Failed to load experiment\<close>, after that one call.
\<close>

theorem getExperiment_missing_directory:
  assumes "readdir h [eid] = Inl e"
  shows "getExperiment h eid = (Error 500 ''Failed to load experiment'', [Readdir [eid]])"
  using assms by (simp add: getExperiment_def io_defs)

text \<open>The missing directory of the example host.\<close>

theorem getExperiment_missing_directory_witness:
  "readdir exampleHost [''experiment_20231231_000000''] = Inl ENOENT \<and>
   getExperiment exampleHost ''experiment_20231231_000000'' =
     (Error 500 ''Failed to load experiment'', [Readdir [''experiment_20231231_000000'']])"
proof -
  have r: "readdir exampleHost [''experiment_20231231_000000''] = Inl ENOENT"
    by (simp add: host_defs)
  from getExperiment_missing_directory[OF r] r show ?thesis by simp
qed

text \<open>For that missing directory the status is 500, not 404.\<close>

theorem getExperiment_missing_directory_counterexample:
  "readdir exampleHost [''experiment_20231231_000000''] = Inl ENOENT \<and>
   fst (getExperiment exampleHost ''experiment_20231231_000000'') =
     Error 500 ''Failed to load experiment''"
  by (simp add: getExperiment_def io_defs host_defs)

section \<open>Properties of the design image endpoint\<close>

text \<open>
  C7. For every id and file name of which one contains \<^verbatim>\<open>..\<close>, \<^verbatim>\<open>getDesignAsset\<close> answers
  with status 400 and has issued no file-system call.
\<close>

theorem getDesignAsset_rejects_traversal:
  assumes "includesStr eid ''..'' \<or> includesStr filename ''..''"
  shows "\<exists>message. getDesignAsset h eid filename = (Error 400 message, [])"
  using assms by (auto simp: getDesignAsset_def)

text \<open>The file name \<^verbatim>\<open>../../secret\<close>.\<close>

theorem getDesignAsset_rejects_traversal_witness:
  "includesStr ''../../secret'' ''..'' \<and>
   getDesignAsset exampleHost ''experiment_20240101_000000'' ''../../secret'' =
     (Error 400 ''Invalid path'', [])"
proof -
  have i: "includesStr ''../../secret'' ''..''" by simp
  from getDesignAsset_rejects_traversal[of "''experiment_20240101_000000''" "''../../secret''" exampleHost] i
  obtain message where
    m: "getDesignAsset exampleHost ''experiment_20240101_000000'' ''../../secret'' = (Error 400 message, [])"
    by blast
  have "fst (getDesignAsset exampleHost ''experiment_20240101_000000'' ''../../secret'') =
      Error 400 ''Invalid path''"
    by (simp add: getDesignAsset_def)
  with m i show ?thesis by simp
qed

text \<open>An accepted request starts with the existence check of the image.\<close>

lemma getDesignAsset_accepted:
  assumes "eid \<noteq> []" "filename \<noteq> []" "\<not> includesStr eid ''..''" "\<not> includesStr filename ''..''"
  shows "\<exists>rest. snd (getDesignAsset h eid filename) = Access [eid, ''designs'', filename] # rest"
  using assms by (auto simp: getDesignAsset_def io_defs split: sum.splits)

end
